theory Spec2Isabelle
  imports Main "HOL-Library.Word"
begin

unbundle bit_operations_syntax

section \<open>Data model of reference.py\<close>

text \<open>
  Python integers are unbounded and are modelled as \<open>int\<close>; a \<open>bytes\<close> value is a list
  of 8-bit words. A point is a pair of integers, and the point at infinity is Python's
  \<open>None\<close>, so an optional point is a \<open>point option\<close>.
\<close>

type_synonym byte = "8 word"
type_synonym bytes = "byte list"
type_synonym point = "int \<times> int"

text \<open>
  Exceptions are values. The two \<open>ValueError\<close> lengths and the range check carry their
  own tag, as do the two \<open>RuntimeError\<close>s; an \<open>AssertionError\<close> records which
  \<open>assert\<close> statement fired. \<open>OverflowError\<close> is what \<open>int.to_bytes\<close> raises for a
  value that does not fit (or is negative).
\<close>

datatype value_error = Msg_not_32 | Seckey_out_of_range | Aux_rand_not_32 nat

datatype runtime_error = Nonce_zero | Signature_invalid

datatype assert_site = Not_infinite | P_not_None | R_not_None

datatype error =
    ValueError value_error
  | RuntimeError runtime_error
  | AssertionError assert_site
  | OverflowError

definition p :: int where
  "p = 0xFFFFFFFFFFFFFFFFFFFFFFFFFFFFFFFFFFFFFFFFFFFFFFFFFFFFFFFEFFFFFC2F"

definition n :: int where
  "n = 0xFFFFFFFFFFFFFFFFFFFFFFFFFFFFFFFEBAAEDCE6AF48A03BBFD25E8CD0364141"

definition G :: point where
  "G = (0x79BE667EF9DCBBAC55A06295CE870B07029BFCDB2DCE28D959F2815B16F81798,
        0x483ADA7726A3C4655DA4FBFC0E1108A8FD17B448A68554199C47D08FFB10D4B8)"

section \<open>Library functions the source calls\<close>

text \<open>
  Python's three-argument \<open>pow(b, e, m)\<close> for a non-negative exponent and a positive
  modulus: the power reduced into \<open>[0, m)\<close>.
\<close>

definition pow_mod :: "int \<Rightarrow> int \<Rightarrow> int \<Rightarrow> int" where
  "pow_mod b e m = (b ^ nat e) mod m"

text \<open>\<open>int.to_bytes(len, byteorder="big")\<close> on a value that fits.\<close>

fun to_bytes_be :: "nat \<Rightarrow> int \<Rightarrow> bytes" where
  "to_bytes_be 0 v = []"
| "to_bytes_be (Suc l) v = to_bytes_be l (v div 256) @ [word_of_int v]"

text \<open>\<open>str.encode()\<close> on the ASCII tags the source uses.\<close>

definition encode :: "string \<Rightarrow> bytes" where
  "encode s = map (\<lambda>c. of_char c) s"

text \<open>
  An exception raised by a call leaves the caller at once: \<open>bind_err\<close> passes the
  error on and otherwise continues with the value.
\<close>

definition bind_err :: "error + 'a \<Rightarrow> ('a \<Rightarrow> error + 'b) \<Rightarrow> error + 'b" where
  "bind_err m f = (case m of Inl e \<Rightarrow> Inl e | Inr v \<Rightarrow> f v)"

section \<open>Curve arithmetic\<close>

definition is_infinite :: "point option \<Rightarrow> bool" where
  "is_infinite P = (P = None)"

text \<open>
  The accessors \<open>x\<close> and \<open>y\<close> of the source (here \<open>x_coord\<close>, \<open>y_coord\<close>) assert that
  their argument is not the point at infinity.
\<close>

definition x_coord :: "point option \<Rightarrow> error + int" where
  "x_coord P = (case P of None \<Rightarrow> Inl (AssertionError Not_infinite) | Some A \<Rightarrow> Inr (fst A))"

definition y_coord :: "point option \<Rightarrow> error + int" where
  "y_coord P = (case P of None \<Rightarrow> Inl (AssertionError Not_infinite) | Some A \<Rightarrow> Inr (snd A))"

text \<open>
  In \<open>point_add\<close> the accessors are only reached after both \<open>None\<close> tests, so their
  assertions cannot fire and the coordinates are read by pattern matching.
\<close>

fun point_add :: "point option \<Rightarrow> point option \<Rightarrow> point option" where
  "point_add None P2 = P2"
| "point_add (Some P1) None = Some P1"
| "point_add (Some (x1, y1)) (Some (x2, y2)) =
     (if x1 = x2 \<and> y1 \<noteq> y2 then None
      else
        let lam = (if (x1, y1) = (x2, y2)
                   then (3 * x1 * x1 * pow_mod (2 * y1) (p - 2) p) mod p
                   else ((y2 - y1) * pow_mod (x2 - x1) (p - 2) p) mod p);
            x3 = (lam * lam - x1 - x2) mod p
        in Some (x3, (lam * (x1 - x3) - y1) mod p))"

text \<open>
  The loop of \<open>point_mul\<close>: \<open>r\<close> iterations remain, \<open>i\<close> is the loop variable, \<open>R\<close> the
  accumulator and \<open>P\<close> the running double. \<open>(k >> i) & 1\<close> is read with the bit operations
  on \<open>int\<close>, which are those of Python on negative numbers too.
\<close>

fun point_mul_loop :: "nat \<Rightarrow> nat \<Rightarrow> int \<Rightarrow> point option \<Rightarrow> point option \<Rightarrow> point option" where
  "point_mul_loop 0 i k R P = R"
| "point_mul_loop (Suc r) i k R P =
     point_mul_loop r (i + 1) k
       (if (drop_bit i k) AND 1 \<noteq> 0 then point_add R P else R)
       (point_add P P)"

definition point_mul :: "point option \<Rightarrow> int \<Rightarrow> point option" where
  "point_mul P k = point_mul_loop 256 0 k None P"

definition bytes_from_int :: "int \<Rightarrow> error + bytes" where
  "bytes_from_int v =
     (if 0 \<le> v \<and> v < 2 ^ 256 then Inr (to_bytes_be 32 v) else Inl OverflowError)"

definition bytes_from_point :: "point option \<Rightarrow> error + bytes" where
  "bytes_from_point P = bind_err (x_coord P) bytes_from_int"

definition xor_bytes :: "bytes \<Rightarrow> bytes \<Rightarrow> bytes" where
  "xor_bytes b0 b1 = map (\<lambda>(a, b). a XOR b) (zip b0 b1)"

definition lift_x :: "int \<Rightarrow> point option" where
  "lift_x v =
     (if v \<ge> p then None
      else
        let y_sq = (pow_mod v 3 p + 7) mod p;
            w = pow_mod y_sq ((p + 1) div 4) p
        in if pow_mod w 2 p \<noteq> y_sq then None
           else Some (v, if w AND 1 = 0 then w else p - w))"


definition int_from_bytes :: "bytes \<Rightarrow> int" where
  "int_from_bytes b = foldl (\<lambda>acc c. acc * 256 + uint c) 0 b"

definition has_even_y :: "point option \<Rightarrow> error + bool" where
  "has_even_y P =
     (if is_infinite P then Inl (AssertionError Not_infinite)
      else bind_err (y_coord P) (\<lambda>v. Inr (v mod 2 = 0)))"

section \<open>Hashing\<close>

text \<open>
  \<open>hashlib.sha256(...).digest()\<close> is not code of the repository; it is the parameter
  \<open>sha256\<close> of every function that hashes, and nothing is assumed about it.
\<close>

definition tagged_hash :: "(bytes \<Rightarrow> bytes) \<Rightarrow> string \<Rightarrow> bytes \<Rightarrow> bytes" where
  "tagged_hash sha256 tag msg =
     (let tag_hash = sha256 (encode tag) in sha256 (tag_hash @ tag_hash @ msg))"

section \<open>Keys and pre-signatures\<close>


definition parity_from_point :: "point option \<Rightarrow> error + bytes" where
  "parity_from_point P =
     (if is_infinite P then Inl (AssertionError Not_infinite)
      else bind_err (has_even_y P) (\<lambda>ev. Inr (if ev then [0x02] else [0x03])))"

text \<open>The verification routine of the source returns \<open>True\<close> whatever it is given.\<close>

definition schnorr_pre_verify :: "bytes \<Rightarrow> point option \<Rightarrow> bytes \<Rightarrow> bytes \<Rightarrow> bool" where
  "schnorr_pre_verify msg T pubkey pre_sig = True"

text \<open>
  \<open>schnorr_pre_sign\<close> is split where the source has its two natural stops. Lines 115 to
  128 validate the input and derive the nonce; they return the locals \<open>P\<close>, \<open>d\<close>, \<open>t\<close>
  and \<open>k0\<close>.
\<close>

definition pre_sign_nonce ::
  "(bytes \<Rightarrow> bytes) \<Rightarrow> bytes \<Rightarrow> bytes \<Rightarrow> bytes \<Rightarrow> point option
     \<Rightarrow> error + (point option \<times> int \<times> bytes \<times> int)" where
  "pre_sign_nonce sha256 msg seckey aux_rand T =
     (if length msg \<noteq> 32 then Inl (ValueError Msg_not_32)
      else
        let d0 = int_from_bytes seckey in
        if \<not> (1 \<le> d0 \<and> d0 \<le> n - 1) then Inl (ValueError Seckey_out_of_range)
        else if length aux_rand \<noteq> 32 then Inl (ValueError (Aux_rand_not_32 (length aux_rand)))
        else
          let P = point_mul (Some G) d0 in
          if P = None then Inl (AssertionError P_not_None)
          else
            bind_err (has_even_y P) (\<lambda>ev.
            let d = (if ev then d0 else n - d0) in
            bind_err (bytes_from_int d) (\<lambda>db.
            let t = xor_bytes db (tagged_hash sha256 ''BIP0340/aux'' aux_rand) in
            bind_err (bytes_from_point T) (\<lambda>Tb.
            bind_err (bytes_from_point P) (\<lambda>Pb.
            let k0 = int_from_bytes
                       (tagged_hash sha256 ''BIP0340/nonce'' (t @ Tb @ Pb @ msg)) mod n in
            if k0 = 0 then Inl (RuntimeError Nonce_zero)
            else Inr (P, d, t, k0))))))"

text \<open>
  Lines 129 to 134 build the signature from the nonce; the record holds the locals that
  \<open>debug_print_vars\<close> would show at line 135 (with \<open>DEBUG = False\<close> it prints nothing).
\<close>

record pre_sign_vars =
  var_R :: "point option"
  var_k :: int
  var_R0 :: "point option"
  var_e :: int
  var_sig :: bytes

definition pre_sign_sig ::
  "(bytes \<Rightarrow> bytes) \<Rightarrow> bytes \<Rightarrow> point option \<Rightarrow> point option \<Rightarrow> int \<Rightarrow> int
     \<Rightarrow> error + pre_sign_vars" where
  "pre_sign_sig sha256 msg T P d k0 =
     (let R = point_mul (Some G) k0 in
      if R = None then Inl (AssertionError R_not_None)
      else
        bind_err (has_even_y R) (\<lambda>ev.
        let k = (if \<not> ev then n - k0 else k0);
            R0 = point_add R T in
        bind_err (bytes_from_point R0) (\<lambda>R0b.
        bind_err (bytes_from_point P) (\<lambda>Pb.
        let e = int_from_bytes
                  (tagged_hash sha256 ''BIP0340/challenge'' (R0b @ Pb @ msg)) mod n in
        bind_err (parity_from_point R0) (\<lambda>par.
        bind_err (bytes_from_point R0) (\<lambda>R0b'.
        bind_err (bytes_from_int ((k + e * d) mod n)) (\<lambda>sb.
        Inr \<lparr>var_R = R, var_k = k, var_R0 = R0, var_e = e,
             var_sig = par @ R0b' @ sb\<rparr>)))))))"

text \<open>Lines 136 to 138: the self-check, then the signature is returned.\<close>

definition schnorr_pre_sign ::
  "(bytes \<Rightarrow> bytes) \<Rightarrow> bytes \<Rightarrow> bytes \<Rightarrow> bytes \<Rightarrow> point option \<Rightarrow> error + bytes" where
  "schnorr_pre_sign sha256 msg seckey aux_rand T =
     bind_err (pre_sign_nonce sha256 msg seckey aux_rand T) (\<lambda>(P, d, t, k0).
     bind_err (pre_sign_sig sha256 msg T P d k0) (\<lambda>vars.
     bind_err (bytes_from_point P) (\<lambda>Pb.
     if \<not> schnorr_pre_verify msg T Pb (var_sig vars)
     then Inl (RuntimeError Signature_invalid)
     else Inr (var_sig vars))))"

section \<open>Predicates used in the statements\<close>

text \<open>
  A valid point has both coordinates in \<open>[0, p)\<close> and satisfies \<open>y\<^sup>2 = x\<^sup>3 + 7\<close>
  modulo \<open>p\<close>.
\<close>

definition valid_point :: "point \<Rightarrow> bool" where
  "valid_point A \<longleftrightarrow>
     0 \<le> fst A \<and> fst A < p \<and> 0 \<le> snd A \<and> snd A < p \<and>
     (snd A * snd A) mod p = (fst A * fst A * fst A + 7) mod p"

text \<open>
  A point is canonical when it is the point at infinity or both coordinates are reduced
  into \<open>[0, p)\<close>.
\<close>

definition canonical :: "point option \<Rightarrow> bool" where
  "canonical P = (case P of None \<Rightarrow> True
                  | Some A \<Rightarrow> 0 \<le> fst A \<and> fst A < p \<and> 0 \<le> snd A \<and> snd A < p)"

text \<open>
  A stand-in for the hash parameter in the concrete instances below: it returns the
  32-byte encoding of 1 on every input, so that every tagged hash decodes to the scalar 1.
\<close>

definition stub_sha256 :: "bytes \<Rightarrow> bytes" where
  "stub_sha256 b = to_bytes_be 32 1"

text \<open>
  A sample adaptor point: the curve point with x-coordinate \<open>x(G) + 1\<close> and odd y, and
  the sum \<open>G + T0\<close> as \<open>point_add\<close> computes it.
\<close>

definition T0 :: point where
  "T0 = (0x79BE667EF9DCBBAC55A06295CE870B07029BFCDB2DCE28D959F2815B16F81799,
         0x1BE4F039B74AA3052FC6F3EB6C381B267A1EECF4F9248FC6E45959BEA63062ED)"

definition R0_sample :: point where
  "R0_sample = (0x5C901A5EF2D0B62C7F5CD68734044E7E559199C9EB26391649AA8EEA2C7F9F29,
                0x1ADE404E41C57E948B060BD7F3CDC91DC8A406E931B0B796F74920C82F055751)"

text \<open>
  The nonce derivation in the words of the specification, for a finite public point \<open>P\<close>
  and a finite adaptor point \<open>T\<close>: \<open>d\<close> is \<open>d0\<close> when \<open>P\<close> has even y and \<open>n - d0\<close>
  otherwise, \<open>t = bytes(d) XOR tagged_hash("BIP0340/aux", aux_rand)\<close>, and
  \<open>k0 = int(tagged_hash("BIP0340/nonce", t \<parallel> bytes(T) \<parallel> bytes(P) \<parallel> msg)) mod n\<close>.
\<close>

definition d_spec :: "int \<Rightarrow> point \<Rightarrow> int" where
  "d_spec d0 P = (if snd P mod 2 = 0 then d0 else n - d0)"

definition t_spec :: "(bytes \<Rightarrow> bytes) \<Rightarrow> int \<Rightarrow> bytes \<Rightarrow> point \<Rightarrow> bytes" where
  "t_spec sha256 d0 aux_rand P =
     xor_bytes (to_bytes_be 32 (d_spec d0 P)) (tagged_hash sha256 ''BIP0340/aux'' aux_rand)"

definition nonce_spec ::
  "(bytes \<Rightarrow> bytes) \<Rightarrow> bytes \<Rightarrow> int \<Rightarrow> bytes \<Rightarrow> point \<Rightarrow> point \<Rightarrow> int" where
  "nonce_spec sha256 msg d0 aux_rand T P =
     int_from_bytes (tagged_hash sha256 ''BIP0340/nonce''
       (t_spec sha256 d0 aux_rand P @ to_bytes_be 32 (fst T) @ to_bytes_be 32 (fst P) @ msg))
     mod n"

text \<open>A second stand-in for the hash parameter: 32 zero bytes on every input.\<close>

definition zero_sha256 :: "bytes \<Rightarrow> bytes" where
  "zero_sha256 b = replicate 32 0"



text \<open>
  The second half of the signing in the words of the specification, for finite points \<open>R\<close>,
  \<open>R0\<close> and \<open>P\<close>: \<open>k\<close> is \<open>k0\<close> when \<open>R\<close> has even y and \<open>n - k0\<close> otherwise, and
  \<open>e = int(tagged_hash("BIP0340/challenge", bytes(R0) \<parallel> bytes(P) \<parallel> msg)) mod n\<close>.
\<close>

definition k_spec :: "int \<Rightarrow> point \<Rightarrow> int" where
  "k_spec k0 R = (if snd R mod 2 = 0 then k0 else n - k0)"

definition challenge_spec :: "(bytes \<Rightarrow> bytes) \<Rightarrow> bytes \<Rightarrow> point \<Rightarrow> point \<Rightarrow> int" where
  "challenge_spec sha256 msg R0 P =
     int_from_bytes (tagged_hash sha256 ''BIP0340/challenge''
       (to_bytes_be 32 (fst R0) @ to_bytes_be 32 (fst P) @ msg))
     mod n"

text \<open>
  The pre-signature in the words of the specification:
  \<open>sig = parity_byte(R0) \<parallel> bytes(x(R0)) \<parallel> bytes((k + e\<cdot>d) mod n)\<close>.
\<close>

definition sig_spec ::
  "(bytes \<Rightarrow> bytes) \<Rightarrow> bytes \<Rightarrow> int \<Rightarrow> int \<Rightarrow> point \<Rightarrow> point \<Rightarrow> point \<Rightarrow> bytes" where
  "sig_spec sha256 msg d k0 P R R0 =
     [if snd R0 mod 2 = 0 then 0x02 else 0x03]
     @ to_bytes_be 32 (fst R0)
     @ to_bytes_be 32 ((k_spec k0 R + challenge_spec sha256 msg R0 P * d) mod n)"

text \<open>A second sample adaptor point: the mirror image of \<open>G\<close>, with the same x and y negated.\<close>

definition G_neg :: point where
  "G_neg = (fst G, p - snd G)"

section \<open>The loop of point_mul on small scalars\<close>

lemma point_mul_loop_zero:
  "0 \<le> k \<Longrightarrow> k < 2 ^ i \<Longrightarrow> point_mul_loop r i k R P = R"
proof (induction r arbitrary: i R P)
  case 0
  then show ?case by simp
next
  case (Suc r)
  have d: "drop_bit i k = 0" using Suc.prems by (simp add: drop_bit_eq_div)
  have "(2::int) ^ i \<le> 2 ^ (i + 1)" by simp
  then have "k < 2 ^ (i + 1)" using Suc.prems(2) by linarith
  then show ?case using Suc.IH [of "i + 1"] Suc.prems(1) d by simp
qed

lemma point_mul_one: "point_mul P 1 = P"
proof -
  have a: "point_mul_loop 255 (0 + 1) 1 (point_add None P) (point_add P P) = point_add None P"
    by (rule point_mul_loop_zero) simp_all
  have b: "point_mul_loop (Suc 255) 0 1 None P
      = point_mul_loop 255 (0 + 1) 1 (point_add None P) (point_add P P)"
    by (subst point_mul_loop.simps(2)) simp
  have c: "(256::nat) = Suc 255" by simp
  show ?thesis unfolding point_mul_def c b a by simp
qed

lemma point_mul_zero: "point_mul P 0 = None"
  unfolding point_mul_def by (rule point_mul_loop_zero) simp_all

section \<open>Neutral element and inverses\<close>

lemma p_odd: "odd p"
  by (simp add: p_def)

text \<open>
  Claim C5. For every valid point \<open>A\<close>, adding the point at infinity on either side
  gives \<open>A\<close> back, and adding \<open>A' = (x(A), p - y(A))\<close> gives the point at infinity:
  \<open>y(A)\<close> and \<open>p - y(A)\<close> differ because \<open>p\<close> is odd.
\<close>

theorem point_add_identity_inverse:
  assumes "valid_point A"
  shows "point_add (Some A) None = Some A
       \<and> point_add None (Some A) = Some A
       \<and> point_add (Some A) (Some (fst A, p - snd A)) = None"
proof -
  have "snd A \<noteq> p - snd A"
  proof
    assume "snd A = p - snd A"
    then have "p = 2 * snd A" by simp
    then have "even p" by (metis dvd_triv_left)
    then show False using p_odd by simp
  qed
  then have "point_add (Some A) (Some (fst A, p - snd A)) = None"
    by (cases A) simp
  then show ?thesis by simp
qed

text \<open>The base point is a valid point; the two sides of the curve equation are evaluated.\<close>

lemma G_y_squared:
  "((0x483ADA7726A3C4655DA4FBFC0E1108A8FD17B448A68554199C47D08FFB10D4B8::int)
    * 0x483ADA7726A3C4655DA4FBFC0E1108A8FD17B448A68554199C47D08FFB10D4B8)
   mod 0xFFFFFFFFFFFFFFFFFFFFFFFFFFFFFFFFFFFFFFFFFFFFFFFFFFFFFFFEFFFFFC2F
   = 0x4866D6A5AB41AB2C6BCC57CCD3735DA5F16F80A548E5E20A44E4E9B8118C26F2"
  by code_simp

lemma G_x_cubed:
  "((0x79BE667EF9DCBBAC55A06295CE870B07029BFCDB2DCE28D959F2815B16F81798::int)
    * 0x79BE667EF9DCBBAC55A06295CE870B07029BFCDB2DCE28D959F2815B16F81798
    * 0x79BE667EF9DCBBAC55A06295CE870B07029BFCDB2DCE28D959F2815B16F81798 + 7)
   mod 0xFFFFFFFFFFFFFFFFFFFFFFFFFFFFFFFFFFFFFFFFFFFFFFFFFFFFFFFEFFFFFC2F
   = 0x4866D6A5AB41AB2C6BCC57CCD3735DA5F16F80A548E5E20A44E4E9B8118C26F2"
  by code_simp

lemma G_valid: "valid_point G"
proof -
  have "(snd G * snd G) mod p = (fst G * fst G * fst G + 7) mod p"
    unfolding G_def p_def fst_conv snd_conv by (simp only: G_y_squared G_x_cubed)
  moreover have "0 \<le> fst G \<and> fst G < p \<and> 0 \<le> snd G \<and> snd G < p"
    by (simp add: G_def p_def)
  ultimately show ?thesis by (simp only: valid_point_def)
qed

theorem point_add_identity_inverse_witness:
  "valid_point G
   \<and> point_add (Some G) None = Some G
   \<and> point_add None (Some G) = Some G
   \<and> point_add (Some G) (Some (fst G, p - snd G)) = None"
  using point_add_identity_inverse [OF G_valid] G_valid by (simp only: simp_thms)

section \<open>Error propagation and ranges\<close>

lemma bind_err_simps [simp]:
  "bind_err (Inl e) f = Inl e"
  "bind_err (Inr v) f = f v"
  by (simp_all add: bind_err_def)

lemma bind_err_Inl:
  "bind_err m f = Inl e \<longleftrightarrow> m = Inl e \<or> (\<exists>v. m = Inr v \<and> f v = Inl e)"
  by (cases m) simp_all

lemma bind_err_Inr:
  "bind_err m f = Inr r \<longleftrightarrow> (\<exists>v. m = Inr v \<and> f v = Inr r)"
  by (cases m) simp_all

lemma n_bounds: "1 < n" "n < 2 ^ 256"
  by (simp_all add: n_def)

lemma p_bounds: "1 < p" "p < 2 ^ 256"
  by (simp_all add: p_def)

lemma bytes_from_int_no_value_error: "bytes_from_int v \<noteq> Inl (ValueError e)"
  by (simp add: bytes_from_int_def)

lemma bytes_from_point_no_value_error: "bytes_from_point P \<noteq> Inl (ValueError e)"
  by (cases P) (simp_all add: bytes_from_point_def x_coord_def bytes_from_int_no_value_error)

lemma has_even_y_no_value_error: "has_even_y P \<noteq> Inl (ValueError e)"
  by (cases P) (simp_all add: has_even_y_def is_infinite_def y_coord_def)

lemma parity_from_point_no_value_error: "parity_from_point P \<noteq> Inl (ValueError e)"
  by (cases P) (simp_all add: parity_from_point_def has_even_y_def is_infinite_def y_coord_def)

lemma pre_sign_sig_no_value_error: "pre_sign_sig sha msg T P d k0 \<noteq> Inl (ValueError e)"
  unfolding pre_sign_sig_def Let_def
  by (auto simp: bind_err_Inl bytes_from_int_no_value_error bytes_from_point_no_value_error
      has_even_y_no_value_error parity_from_point_no_value_error)

lemma canonical_simps [simp]:
  "canonical None"
  "canonical (Some (a, b)) \<longleftrightarrow> 0 \<le> a \<and> a < p \<and> 0 \<le> b \<and> b < p"
  by (simp_all add: canonical_def)

lemma point_add_canonical:
  assumes "canonical P1" "canonical P2"
  shows "canonical (point_add P1 P2)"
proof (cases P1)
  case None
  then show ?thesis using assms by simp
next
  case (Some A)
  show ?thesis
  proof (cases P2)
    case None
    then show ?thesis using assms Some by simp
  next
    case (Some B)
    obtain x1 y1 where A: "A = (x1, y1)" by (cases A)
    obtain x2 y2 where B: "B = (x2, y2)" by (cases B)
    have "0 < p" using p_bounds by simp
    then have "\<And>v. 0 \<le> v mod p \<and> v mod p < p" by simp
    then show ?thesis
      unfolding \<open>P1 = Some A\<close> Some A B point_add.simps Let_def by simp
  qed
qed

lemma point_add_Some_canonical: "canonical (point_add (Some A) (Some B))"
proof -
  obtain x1 y1 where A: "A = (x1, y1)" by (cases A)
  obtain x2 y2 where B: "B = (x2, y2)" by (cases B)
  have "0 < p" using p_bounds by simp
  then have "\<And>v. 0 \<le> v mod p \<and> v mod p < p" by simp
  then show ?thesis
    unfolding A B point_add.simps Let_def by simp
qed

lemma point_mul_loop_canonical:
  "canonical R \<Longrightarrow> canonical P \<Longrightarrow> canonical (point_mul_loop r i k R P)"
  by (induction r arbitrary: i R P) (simp_all add: point_add_canonical)

lemma point_mul_canonical: "canonical P \<Longrightarrow> canonical (point_mul P k)"
  unfolding point_mul_def by (rule point_mul_loop_canonical) simp_all

lemma G_canonical: "canonical (Some G)"
  by (simp add: G_def p_def)

lemma point_mul_G_range:
  assumes "point_mul (Some G) k = Some A"
  shows "0 \<le> fst A" "fst A < 2 ^ 256" "0 \<le> snd A" "snd A < p"
proof -
  have "canonical (Some A)"
    using point_mul_canonical [OF G_canonical, of k] assms by simp
  then show "0 \<le> fst A" "fst A < 2 ^ 256" "0 \<le> snd A" "snd A < p"
    using p_bounds by (simp_all add: canonical_def)
qed

lemma has_even_y_Some [simp]: "has_even_y (Some A) = Inr (snd A mod 2 = 0)"
  by (simp add: has_even_y_def is_infinite_def y_coord_def)

lemma bytes_from_int_ok:
  "0 \<le> v \<Longrightarrow> v < 2 ^ 256 \<Longrightarrow> bytes_from_int v = Inr (to_bytes_be 32 v)"
  by (simp add: bytes_from_int_def)

lemma bytes_from_point_Some [simp]: "bytes_from_point (Some A) = bytes_from_int (fst A)"
  by (simp add: bytes_from_point_def x_coord_def)

lemma bytes_from_point_None [simp]: "bytes_from_point None = Inl (AssertionError Not_infinite)"
  by (simp add: bytes_from_point_def x_coord_def)

lemma signing_key_range:
  assumes "1 \<le> d0" "d0 \<le> n - 1"
  shows "0 \<le> (if ev then d0 else n - d0)" "(if ev then d0 else n - d0) < 2 ^ 256"
  using assms n_bounds by auto

lemma int_from_bytes_one: "int_from_bytes [1] = 1"
  by (simp add: int_from_bytes_def)

lemma int_from_bytes_empty: "int_from_bytes [] = 0"
  by (simp add: int_from_bytes_def)

lemma one_in_key_range: "(1::int) \<le> n - 1"
  by (simp add: n_def)

section \<open>Modular exponentiation by squaring\<close>

text \<open>
  \<open>pow_mod\<close> satisfies the square-and-multiply recursion; as a code equation it makes
  \<open>pow_mod\<close> executable on numerals.
\<close>

lemma pow_mod_square: "pow_mod (b * b mod m) k m = pow_mod b (2 * k) m"
proof (cases "0 \<le> k")
  case True
  then have "nat (2 * k) = 2 * nat k" by simp
  moreover have "(b * b mod m) ^ nat k mod m = (b * b) ^ nat k mod m"
    by (rule power_mod)
  moreover have "(b * b) ^ nat k = b ^ (2 * nat k)"
    by (simp add: power_mult power2_eq_square)
  ultimately show ?thesis by (simp add: pow_mod_def)
next
  case False
  then show ?thesis by (simp add: pow_mod_def)
qed

lemma pow_mod_code [code]:
  "pow_mod b e m =
     (if e \<le> 0 then 1 mod m
      else if e mod 2 = 0 then pow_mod (b * b mod m) (e div 2) m
      else (b * pow_mod (b * b mod m) (e div 2) m) mod m)"
proof (cases "e \<le> 0")
  case True
  then show ?thesis by (simp add: pow_mod_def)
next
  case pos: False
  show ?thesis
  proof (cases "e mod 2 = 0")
    case True
    then have "2 * (e div 2) = e" by presburger
    then show ?thesis using pos True by (simp add: pow_mod_square)
  next
    case False
    then have e: "e = 2 * (e div 2) + 1" by presburger
    have "0 \<le> 2 * (e div 2)" using pos by presburger
    then have "nat (2 * (e div 2) + 1) = Suc (nat (2 * (e div 2)))"
      using Suc_nat_eq_nat_zadd1 [of "2 * (e div 2)"] by (simp only: add.commute)
    then have "b ^ nat e = b * b ^ nat (2 * (e div 2))" using e by simp
    then have "pow_mod b e m = (b * pow_mod b (2 * (e div 2)) m) mod m"
      by (simp add: pow_mod_def mod_mult_right_eq)
    then show ?thesis using pos False by (simp add: pow_mod_square)
  qed
qed

section \<open>Byte strings and integers\<close>


lemma to_bytes_be_length [simp]: "length (to_bytes_be l v) = l"
  by (induction l arbitrary: v) simp_all

lemma int_from_bytes_append:
  "int_from_bytes (bs @ [c]) = int_from_bytes bs * 256 + uint c"
  by (simp add: int_from_bytes_def)

lemma int_from_to_bytes_be: "int_from_bytes (to_bytes_be l v) = v mod 256 ^ l"
proof (induction l arbitrary: v)
  case 0
  then show ?case by (simp add: int_from_bytes_def)
next
  case (Suc l)
  have "uint (word_of_int v :: byte) = v mod 256"
    by (simp add: uint_word_of_int take_bit_eq_mod)
  moreover have "(v div 256) mod 256 ^ l * 256 + v mod 256 = v mod (256 * 256 ^ l)"
    using zmod_zmult2_eq [of "256 ^ l" v 256] by (simp add: mult.commute)
  ultimately show ?case
    by (simp add: int_from_bytes_append Suc.IH)
qed

lemma int_from_bytes_from_int:
  assumes "0 \<le> v" "v < 2 ^ 256"
  shows "int_from_bytes (to_bytes_be 32 v) = v"
proof -
  have "(256::int) ^ 32 = 2 ^ 256" by simp
  then show ?thesis using assms by (simp add: int_from_to_bytes_be)
qed

section \<open>The run of schnorr_pre_sign after the three checks\<close>

text \<open>
  Once the three checks are passed, every step of lines 122 to 138 either raises or
  computes the value the specification names; the lemmas below spell the run out.
\<close>

lemma parity_from_point_Some:
  "parity_from_point (Some A) = Inr (if snd A mod 2 = 0 then [0x02] else [0x03])"
  by (simp add: parity_from_point_def is_infinite_def)

lemma pre_sign_nonce_closed:
  assumes "length msg = 32"
    and "1 \<le> int_from_bytes seckey" and "int_from_bytes seckey \<le> n - 1"
    and "length aux_rand = 32"
  shows "pre_sign_nonce sha msg seckey aux_rand T =
     (case point_mul (Some G) (int_from_bytes seckey) of
        None \<Rightarrow> Inl (AssertionError P_not_None)
      | Some Pp \<Rightarrow>
          (case T of
             None \<Rightarrow> Inl (AssertionError Not_infinite)
           | Some Tp \<Rightarrow>
               if \<not> (0 \<le> fst Tp \<and> fst Tp < 2 ^ 256) then Inl OverflowError
               else if nonce_spec sha msg (int_from_bytes seckey) aux_rand Tp Pp = 0
               then Inl (RuntimeError Nonce_zero)
               else Inr (Some Pp, d_spec (int_from_bytes seckey) Pp,
                         t_spec sha (int_from_bytes seckey) aux_rand Pp,
                         nonce_spec sha msg (int_from_bytes seckey) aux_rand Tp Pp)))"
proof (cases "point_mul (Some G) (int_from_bytes seckey)")
  case None
  then show ?thesis using assms by (simp add: pre_sign_nonce_def)
next
  case (Some Pp)
  let ?d0 = "int_from_bytes seckey"
  have d: "bytes_from_int (d_spec ?d0 Pp) = Inr (to_bytes_be 32 (d_spec ?d0 Pp))"
    unfolding d_spec_def using signing_key_range [OF assms(2,3)] by (rule bytes_from_int_ok)
  have P: "bytes_from_int (fst Pp) = Inr (to_bytes_be 32 (fst Pp))"
    using point_mul_G_range(1,2) [OF Some] by (rule bytes_from_int_ok)
  show ?thesis
  proof (cases T)
    case None
    then show ?thesis
      using assms(1-4) d by (simp add: pre_sign_nonce_def Some Let_def d_spec_def)
  next
    case T: (Some Tp)
    show ?thesis
    proof (cases "0 \<le> fst Tp \<and> fst Tp < 2 ^ 256")
      case True
      then have Tb: "bytes_from_int (fst Tp) = Inr (to_bytes_be 32 (fst Tp))"
        by (simp add: bytes_from_int_ok)
      show ?thesis
        using assms(1-4) d P Tb True
        by (simp add: pre_sign_nonce_def Some T Let_def d_spec_def t_spec_def nonce_spec_def)
    next
      case False
      then have Tb: "bytes_from_int (fst Tp) = Inl OverflowError"
        by (simp add: bytes_from_int_def)
      show ?thesis
        using assms(1-4) d Tb False
        by (simp add: pre_sign_nonce_def Some T Let_def d_spec_def)
    qed
  qed
qed

lemma point_add_finite_encodable:
  assumes "canonical (Some Rp)" and "point_add (Some Rp) T = Some R0p"
  shows "0 \<le> fst R0p" "fst R0p < 2 ^ 256"
proof -
  have "canonical (point_add (Some Rp) T)"
    using assms(1) by (cases T) (simp_all add: point_add_Some_canonical del: canonical_simps)
  then have "canonical (Some R0p)" by (simp only: assms(2))
  then show "0 \<le> fst R0p" "fst R0p < 2 ^ 256"
    using p_bounds by (simp_all add: canonical_def)
qed

lemma pre_sign_sig_closed:
  assumes "0 \<le> fst Pp" and "fst Pp < 2 ^ 256"
  shows "pre_sign_sig sha msg T (Some Pp) d k0 =
     (case point_mul (Some G) k0 of
        None \<Rightarrow> Inl (AssertionError R_not_None)
      | Some Rp \<Rightarrow>
          (case point_add (Some Rp) T of
             None \<Rightarrow> Inl (AssertionError Not_infinite)
           | Some R0p \<Rightarrow>
               Inr \<lparr>var_R = Some Rp, var_k = k_spec k0 Rp, var_R0 = Some R0p,
                    var_e = challenge_spec sha msg R0p Pp,
                    var_sig = (if snd R0p mod 2 = 0 then [0x02] else [0x03])
                      @ to_bytes_be 32 (fst R0p)
                      @ to_bytes_be 32
                          ((k_spec k0 Rp + challenge_spec sha msg R0p Pp * d) mod n)\<rparr>))"
proof (cases "point_mul (Some G) k0")
  case None
  then show ?thesis by (simp add: pre_sign_sig_def)
next
  case (Some Rp)
  have cR: "canonical (Some Rp)"
    using point_mul_canonical [OF G_canonical, of k0] by (simp only: Some)
  have P: "bytes_from_int (fst Pp) = Inr (to_bytes_be 32 (fst Pp))"
    using assms by (rule bytes_from_int_ok)
  show ?thesis
  proof (cases "point_add (Some Rp) T")
    case None
    then show ?thesis by (simp add: pre_sign_sig_def Some Let_def)
  next
    case R0: (Some R0p)
    have R0b: "bytes_from_int (fst R0p) = Inr (to_bytes_be 32 (fst R0p))"
      using point_add_finite_encodable [OF cR R0] by (rule bytes_from_int_ok)
    have "0 < n" "n < 2 ^ 256" using n_bounds by simp_all
    then have s: "0 \<le> (v mod n)" "v mod n < 2 ^ 256" for v
      by (simp, smt (verit) pos_mod_bound)
    have sb: "bytes_from_int (v mod n) = Inr (to_bytes_be 32 (v mod n))" for v
      using s [of v] by (rule bytes_from_int_ok)
    have e: "int_from_bytes (tagged_hash sha ''BIP0340/challenge''
                (to_bytes_be 32 (fst R0p) @ to_bytes_be 32 (fst Pp) @ msg)) mod n
        = challenge_spec sha msg R0p Pp"
      by (simp add: challenge_spec_def)
    show ?thesis
      unfolding pre_sign_sig_def Let_def Some R0 option.case
      by (simp add: P R0b parity_from_point_Some e sb k_spec_def R0)
  qed
qed

lemma schnorr_pre_sign_closed:
  assumes "length msg = 32"
    and "1 \<le> int_from_bytes seckey" and "int_from_bytes seckey \<le> n - 1"
    and "length aux_rand = 32"
  shows "schnorr_pre_sign sha msg seckey aux_rand T =
     (case point_mul (Some G) (int_from_bytes seckey) of
        None \<Rightarrow> Inl (AssertionError P_not_None)
      | Some Pp \<Rightarrow>
          (case T of
             None \<Rightarrow> Inl (AssertionError Not_infinite)
           | Some Tp \<Rightarrow>
               if \<not> (0 \<le> fst Tp \<and> fst Tp < 2 ^ 256) then Inl OverflowError
               else if nonce_spec sha msg (int_from_bytes seckey) aux_rand Tp Pp = 0
               then Inl (RuntimeError Nonce_zero)
               else
                 (case point_mul (Some G)
                         (nonce_spec sha msg (int_from_bytes seckey) aux_rand Tp Pp) of
                    None \<Rightarrow> Inl (AssertionError R_not_None)
                  | Some Rp \<Rightarrow>
                      (case point_add (Some Rp) (Some Tp) of
                         None \<Rightarrow> Inl (AssertionError Not_infinite)
                       | Some R0p \<Rightarrow>
                           Inr (sig_spec sha msg (d_spec (int_from_bytes seckey) Pp)
                                  (nonce_spec sha msg (int_from_bytes seckey) aux_rand Tp Pp)
                                  Pp Rp R0p)))))"
proof (cases "point_mul (Some G) (int_from_bytes seckey)")
  case None
  then show ?thesis
    using pre_sign_nonce_closed [OF assms, of sha T] by (simp add: schnorr_pre_sign_def)
next
  case (Some Pp)
  note r = point_mul_G_range(1,2) [OF Some]
  have P: "bytes_from_int (fst Pp) = Inr (to_bytes_be 32 (fst Pp))"
    using r by (rule bytes_from_int_ok)
  show ?thesis
    unfolding schnorr_pre_sign_def pre_sign_nonce_closed [OF assms] Some option.case
    by (simp add: pre_sign_sig_closed [OF r] P schnorr_pre_verify_def sig_spec_def
        split: option.splits)
qed


lemma schnorr_pre_sign_checks:
  assumes "schnorr_pre_sign sha msg seckey aux_rand T = Inr sig"
  shows "length msg = 32" "1 \<le> int_from_bytes seckey" "int_from_bytes seckey \<le> n - 1"
    "length aux_rand = 32"
  using assms
  by (auto simp: schnorr_pre_sign_def pre_sign_nonce_def Let_def split: if_splits)

lemma schnorr_pre_sign_Inr:
  assumes "schnorr_pre_sign sha msg seckey aux_rand T = Inr sig"
  obtains Pp Tp Rp R0p where
    "point_mul (Some G) (int_from_bytes seckey) = Some Pp"
    "T = Some Tp" "0 \<le> fst Tp" "fst Tp < 2 ^ 256"
    "nonce_spec sha msg (int_from_bytes seckey) aux_rand Tp Pp \<noteq> 0"
    "point_mul (Some G) (nonce_spec sha msg (int_from_bytes seckey) aux_rand Tp Pp) = Some Rp"
    "point_add (Some Rp) (Some Tp) = Some R0p"
    "sig = sig_spec sha msg (d_spec (int_from_bytes seckey) Pp)
             (nonce_spec sha msg (int_from_bytes seckey) aux_rand Tp Pp) Pp Rp R0p"
proof -
  note c = schnorr_pre_sign_checks [OF assms]
  note e = assms [unfolded schnorr_pre_sign_closed [OF c]]
  from e obtain Pp where P: "point_mul (Some G) (int_from_bytes seckey) = Some Pp"
    by (cases "point_mul (Some G) (int_from_bytes seckey)") simp_all
  from e P obtain Tp where T: "T = Some Tp" by (cases T) simp_all
  let ?k0 = "nonce_spec sha msg (int_from_bytes seckey) aux_rand Tp Pp"
  from e P T have t: "0 \<le> fst Tp" "fst Tp < 2 ^ 256" "?k0 \<noteq> 0"
    by (auto split: if_splits)
  from e P T t obtain Rp where R: "point_mul (Some G) ?k0 = Some Rp"
    by (cases "point_mul (Some G) ?k0") simp_all
  from e P T t R obtain R0p where R0: "point_add (Some Rp) (Some Tp) = Some R0p"
    by (cases "point_add (Some Rp) (Some Tp)") simp_all
  from e P T t R R0 have "sig = sig_spec sha msg (d_spec (int_from_bytes seckey) Pp) ?k0 Pp Rp R0p"
    by simp
  then show thesis using that P T t R R0 by blast
qed

section \<open>Input validation of schnorr_pre_sign\<close>

lemma pre_sign_nonce_value_error:
  assumes "length msg = 32" "1 \<le> int_from_bytes seckey" "int_from_bytes seckey \<le> n - 1"
    "length aux_rand = 32"
  shows "pre_sign_nonce sha msg seckey aux_rand T \<noteq> Inl (ValueError e)"
  using assms unfolding pre_sign_nonce_def Let_def
  by (auto simp: bind_err_Inl bytes_from_int_no_value_error bytes_from_point_no_value_error
      has_even_y_no_value_error)

lemma schnorr_pre_sign_value_error:
  "schnorr_pre_sign sha msg seckey aux_rand T = Inl (ValueError e)
   \<longleftrightarrow> pre_sign_nonce sha msg seckey aux_rand T = Inl (ValueError e)"
  unfolding schnorr_pre_sign_def
  by (auto simp: bind_err_Inl pre_sign_sig_no_value_error bytes_from_point_no_value_error
      split: prod.splits)

text \<open>
  Claim C2. \<open>schnorr_pre_sign\<close> raises a \<open>ValueError\<close> exactly when the message is not
  32 bytes long, or the secret key does not decode to an integer in \<open>[1, n - 1]\<close>, or
  \<open>aux_rand\<close> is not 32 bytes long. The checks run in this order, each has its own
  error, and an error is never a signature (\<open>Inl\<close> is not \<open>Inr\<close>).
\<close>

theorem pre_sign_validation:
  fixes sha :: "bytes \<Rightarrow> bytes"
  defines "d0 \<equiv> \<lambda>seckey. int_from_bytes seckey"
  shows "(length msg \<noteq> 32 \<longrightarrow>
            schnorr_pre_sign sha msg seckey aux_rand T = Inl (ValueError Msg_not_32))
       \<and> (length msg = 32 \<and> \<not> (1 \<le> d0 seckey \<and> d0 seckey \<le> n - 1) \<longrightarrow>
            schnorr_pre_sign sha msg seckey aux_rand T = Inl (ValueError Seckey_out_of_range))
       \<and> (length msg = 32 \<and> 1 \<le> d0 seckey \<and> d0 seckey \<le> n - 1 \<and> length aux_rand \<noteq> 32 \<longrightarrow>
            schnorr_pre_sign sha msg seckey aux_rand T
              = Inl (ValueError (Aux_rand_not_32 (length aux_rand))))
       \<and> ((\<exists>e. schnorr_pre_sign sha msg seckey aux_rand T = Inl (ValueError e))
            \<longleftrightarrow> length msg \<noteq> 32 \<or> \<not> (1 \<le> d0 seckey \<and> d0 seckey \<le> n - 1)
                \<or> length aux_rand \<noteq> 32)"
proof -
  let ?r = "schnorr_pre_sign sha msg seckey aux_rand T"
  let ?key_ok = "1 \<le> d0 seckey \<and> d0 seckey \<le> n - 1"
  have a: "?r = Inl (ValueError Msg_not_32)" if "length msg \<noteq> 32"
    using that by (simp add: schnorr_pre_sign_def pre_sign_nonce_def)
  have b: "?r = Inl (ValueError Seckey_out_of_range)" if "length msg = 32" "\<not> ?key_ok"
    using that by (auto simp: schnorr_pre_sign_def pre_sign_nonce_def d0_def)
  have c: "?r = Inl (ValueError (Aux_rand_not_32 (length aux_rand)))"
    if "length msg = 32" "?key_ok" "length aux_rand \<noteq> 32"
    using that by (simp add: schnorr_pre_sign_def pre_sign_nonce_def d0_def)
  have d: "?r \<noteq> Inl (ValueError e)"
    if "length msg = 32" "?key_ok" "length aux_rand = 32" for e
    using that pre_sign_nonce_value_error [of msg seckey aux_rand sha T e]
    by (simp add: schnorr_pre_sign_value_error d0_def)
  have "(\<exists>e. ?r = Inl (ValueError e))
      \<longleftrightarrow> length msg \<noteq> 32 \<or> \<not> ?key_ok \<or> length aux_rand \<noteq> 32"
    using a b c d by blast
  then show ?thesis using a b c by blast
qed

theorem pre_sign_validation_witness:
  "schnorr_pre_sign stub_sha256 (replicate 31 0) [1] (replicate 32 0) (Some G)
     = Inl (ValueError Msg_not_32)
   \<and> schnorr_pre_sign stub_sha256 (replicate 32 0) [] (replicate 32 0) (Some G)
     = Inl (ValueError Seckey_out_of_range)
   \<and> schnorr_pre_sign stub_sha256 (replicate 32 0) [1] (replicate 5 0) (Some G)
     = Inl (ValueError (Aux_rand_not_32 5))
   \<and> (\<forall>e. schnorr_pre_sign stub_sha256 (replicate 32 0) [1] (replicate 32 0) (Some G)
     \<noteq> Inl (ValueError e))"
  using pre_sign_validation [of "replicate 31 0" stub_sha256 "[1]" "replicate 32 0" "Some G"]
    pre_sign_validation [of "replicate 32 0" stub_sha256 "[]" "replicate 32 0" "Some G"]
    pre_sign_validation [of "replicate 32 0" stub_sha256 "[1]" "replicate 5 0" "Some G"]
    pre_sign_validation [of "replicate 32 0" stub_sha256 "[1]" "replicate 32 0" "Some G"]
    one_in_key_range
  by (simp add: int_from_bytes_one int_from_bytes_empty)

section \<open>The point at infinity as adaptor point\<close>

text \<open>
  Claim C10. With the point at infinity as \<open>T\<close>, an input that passes the three checks
  ends in an \<open>AssertionError\<close>, not in a \<open>ValueError\<close>: when \<open>P = d0\<cdot>G\<close> is finite it is
  the assertion of \<open>x\<close>, reached from \<open>bytes_from_point(T)\<close> in the nonce derivation.
\<close>

theorem pre_sign_infinite_T:
  assumes "length msg = 32"
    and "1 \<le> int_from_bytes seckey" and "int_from_bytes seckey \<le> n - 1"
    and "length aux_rand = 32"
  shows "(\<exists>site. schnorr_pre_sign sha msg seckey aux_rand None = Inl (AssertionError site))
       \<and> (point_mul (Some G) (int_from_bytes seckey) \<noteq> None \<longrightarrow>
            schnorr_pre_sign sha msg seckey aux_rand None = Inl (AssertionError Not_infinite))"
proof (cases "point_mul (Some G) (int_from_bytes seckey)")
  case None
  then have "schnorr_pre_sign sha msg seckey aux_rand None = Inl (AssertionError P_not_None)"
    using assms by (simp add: schnorr_pre_sign_def pre_sign_nonce_def)
  then show ?thesis using None by simp
next
  case (Some A)
  have "schnorr_pre_sign sha msg seckey aux_rand None = Inl (AssertionError Not_infinite)"
    using assms Some signing_key_range [OF assms(2,3)]
    by (simp add: schnorr_pre_sign_def pre_sign_nonce_def Let_def bytes_from_int_ok)
  then show ?thesis by simp
qed

theorem pre_sign_infinite_T_witness:
  "length (replicate 32 (0::byte)) = 32 \<and> 1 \<le> int_from_bytes [1] \<and> int_from_bytes [1] \<le> n - 1
   \<and> point_mul (Some G) (int_from_bytes [1]) \<noteq> None
   \<and> schnorr_pre_sign stub_sha256 (replicate 32 0) [1] (replicate 32 0) None
       = Inl (AssertionError Not_infinite)"
  using pre_sign_infinite_T [of "replicate 32 0" "[1]" "replicate 32 0" stub_sha256]
    one_in_key_range
  by (simp add: int_from_bytes_one point_mul_one)

section \<open>A sample run of schnorr_pre_sign\<close>

text \<open>
  The run on the message of 32 zero bytes, the secret key 1, 32 zero bytes of auxiliary
  randomness and the adaptor point \<open>T0\<close>, with \<open>stub_sha256\<close> for the hash: \<open>P = G\<close>,
  \<open>d = 1\<close>, \<open>k0 = 1\<close>, \<open>R = G\<close>, \<open>R0 = G + T0\<close>, \<open>e = 1\<close> and \<open>s = 2\<close>.
\<close>

lemma point_add_G_T0: "point_add (Some G) (Some T0) = Some R0_sample"
  unfolding G_def T0_def R0_sample_def by code_simp

lemma stub_tagged_hash [simp]: "tagged_hash stub_sha256 tag m = to_bytes_be 32 1"
  by (simp add: tagged_hash_def stub_sha256_def)

lemma int_be32_one [simp]: "int_from_bytes (to_bytes_be 32 1) = 1"
  by (rule int_from_bytes_from_int) simp_all

lemma G_even: "snd G mod 2 = 0"
  by (simp add: G_def)

lemma R0_sample_odd: "snd R0_sample mod 2 = 1"
  by (simp add: R0_sample_def)

lemma sample_ranges:
  "0 \<le> fst T0" "fst T0 < 2 ^ 256" "0 \<le> fst G" "fst G < 2 ^ 256"
  "0 \<le> fst R0_sample" "fst R0_sample < 2 ^ 256"
  by (simp_all add: T0_def G_def R0_sample_def)

lemma sample_bytes:
  "bytes_from_int (fst T0) = Inr (to_bytes_be 32 (fst T0))"
  "bytes_from_int (fst G) = Inr (to_bytes_be 32 (fst G))"
  "bytes_from_int (fst R0_sample) = Inr (to_bytes_be 32 (fst R0_sample))"
  "bytes_from_int 1 = Inr (to_bytes_be 32 1)"
  "bytes_from_int 2 = Inr (to_bytes_be 32 2)"
  by (rule bytes_from_int_ok [OF sample_ranges(1,2)], rule bytes_from_int_ok [OF sample_ranges(3,4)],
      rule bytes_from_int_ok [OF sample_ranges(5,6)]) (simp_all add: bytes_from_int_ok)

lemma small_mod_n: "1 mod n = 1" "2 mod n = 2"
  by (simp_all add: n_def)

lemma sample_nonce:
  "pre_sign_nonce stub_sha256 (replicate 32 0) (to_bytes_be 32 1) (replicate 32 0) (Some T0)
     = Inr (Some G, 1, xor_bytes (to_bytes_be 32 1) (to_bytes_be 32 1), 1)"
  using one_in_key_range
  by (simp add: pre_sign_nonce_def point_mul_one G_even sample_bytes small_mod_n)

lemma sample_sig:
  "pre_sign_sig stub_sha256 (replicate 32 0) (Some T0) (Some G) 1 1
     = Inr \<lparr>var_R = Some G, var_k = 1, var_R0 = Some R0_sample, var_e = 1,
            var_sig = [0x03] @ to_bytes_be 32 (fst R0_sample) @ to_bytes_be 32 2\<rparr>"
  by (simp add: pre_sign_sig_def point_mul_one G_even point_add_G_T0 sample_bytes
      small_mod_n parity_from_point_def is_infinite_def R0_sample_odd)

lemma sample_run:
  "schnorr_pre_sign stub_sha256 (replicate 32 0) (to_bytes_be 32 1) (replicate 32 0) (Some T0)
     = Inr ([0x03] @ to_bytes_be 32 (fst R0_sample) @ to_bytes_be 32 2)"
  by (simp add: schnorr_pre_sign_def sample_nonce sample_sig sample_bytes
      schnorr_pre_verify_def)

section \<open>The layout of the pre-signature\<close>

text \<open>
  Claim C3. A value returned by \<open>schnorr_pre_sign\<close> is 65 bytes long: one parity byte
  (\<open>0x02\<close> when \<open>R0\<close> has even y, \<open>0x03\<close> when odd), the 32-byte big-endian x-coordinate
  of \<open>R0 = R + T\<close>, and the 32-byte big-endian encoding of \<open>(k + e\<cdot>d) mod n\<close>. Here
  \<open>P = d0\<cdot>G\<close>, \<open>d\<close> is \<open>d0\<close> or \<open>n - d0\<close> by the parity of \<open>P\<close>, \<open>k0\<close> is the nonce hashed
  from \<open>t\<close>, \<open>T\<close>, \<open>P\<close> and the message, \<open>R = k0\<cdot>G\<close>, \<open>k\<close> is \<open>k0\<close> or \<open>n - k0\<close> by the parity
  of \<open>R\<close>, and \<open>e\<close> is the challenge hashed from \<open>R0\<close>, \<open>P\<close> and the message. Both 32-byte
  fields decode to the numbers they encode.
\<close>

theorem pre_sign_layout:
  assumes "schnorr_pre_sign sha msg seckey aux_rand T = Inr sig"
  shows "\<exists>Pp Tp Rp R0p d t k0 k e.
      point_mul (Some G) (int_from_bytes seckey) = Some Pp
    \<and> T = Some Tp
    \<and> d = (if snd Pp mod 2 = 0 then int_from_bytes seckey else n - int_from_bytes seckey)
    \<and> t = xor_bytes (to_bytes_be 32 d) (tagged_hash sha ''BIP0340/aux'' aux_rand)
    \<and> k0 = int_from_bytes (tagged_hash sha ''BIP0340/nonce''
               (t @ to_bytes_be 32 (fst Tp) @ to_bytes_be 32 (fst Pp) @ msg)) mod n
    \<and> point_mul (Some G) k0 = Some Rp
    \<and> k = (if snd Rp mod 2 = 0 then k0 else n - k0)
    \<and> point_add (Some Rp) (Some Tp) = Some R0p
    \<and> e = int_from_bytes (tagged_hash sha ''BIP0340/challenge''
              (to_bytes_be 32 (fst R0p) @ to_bytes_be 32 (fst Pp) @ msg)) mod n
    \<and> sig = [if snd R0p mod 2 = 0 then 0x02 else 0x03]
              @ to_bytes_be 32 (fst R0p)
              @ to_bytes_be 32 ((k + e * d) mod n)
    \<and> length sig = 65
    \<and> hd sig \<in> {0x02, 0x03}
    \<and> int_from_bytes (take 32 (drop 1 sig)) = fst R0p
    \<and> int_from_bytes (drop 33 sig) = (k + e * d) mod n"
proof -
  let ?d0 = "int_from_bytes seckey"
  from assms obtain Pp Tp Rp R0p where
    P: "point_mul (Some G) ?d0 = Some Pp" and
    T: "T = Some Tp" and
    R: "point_mul (Some G) (nonce_spec sha msg ?d0 aux_rand Tp Pp) = Some Rp" and
    R0: "point_add (Some Rp) (Some Tp) = Some R0p" and
    sig: "sig = sig_spec sha msg (d_spec ?d0 Pp) (nonce_spec sha msg ?d0 aux_rand Tp Pp) Pp Rp R0p"
    by (rule schnorr_pre_sign_Inr)
  define d where "d = (if snd Pp mod 2 = 0 then ?d0 else n - ?d0)"
  define t where "t = xor_bytes (to_bytes_be 32 d) (tagged_hash sha ''BIP0340/aux'' aux_rand)"
  define k0 where "k0 = int_from_bytes (tagged_hash sha ''BIP0340/nonce''
               (t @ to_bytes_be 32 (fst Tp) @ to_bytes_be 32 (fst Pp) @ msg)) mod n"
  define k where "k = (if snd Rp mod 2 = 0 then k0 else n - k0)"
  define e where "e = int_from_bytes (tagged_hash sha ''BIP0340/challenge''
              (to_bytes_be 32 (fst R0p) @ to_bytes_be 32 (fst Pp) @ msg)) mod n"
  have dd: "d_spec ?d0 Pp = d" by (simp add: d_spec_def d_def)
  have kk: "nonce_spec sha msg ?d0 aux_rand Tp Pp = k0"
    by (simp add: nonce_spec_def t_spec_def dd k0_def t_def)
  have s: "sig = [if snd R0p mod 2 = 0 then 0x02 else 0x03]
              @ to_bytes_be 32 (fst R0p) @ to_bytes_be 32 ((k + e * d) mod n)"
    unfolding sig dd kk by (simp add: sig_spec_def k_spec_def challenge_spec_def k_def e_def)
  have cR: "canonical (Some Rp)"
    using point_mul_canonical [OF G_canonical, of k0] R by (simp only: kk)
  note x = point_add_finite_encodable [OF cR R0]
  have np: "0 < n" "n < 2 ^ 256" using n_bounds by simp_all
  have r: "0 \<le> (k + e * d) mod n" "(k + e * d) mod n < 2 ^ 256"
    using np by (simp, smt (verit) pos_mod_bound)
  have l: "length sig = 65" "hd sig \<in> {0x02, 0x03}" unfolding s by simp_all
  have dx: "int_from_bytes (take 32 (drop 1 sig)) = fst R0p"
    unfolding s using int_from_bytes_from_int [OF x] by simp
  have ds: "int_from_bytes (drop 33 sig) = (k + e * d) mod n"
    unfolding s using int_from_bytes_from_int [OF r] by simp
  show ?thesis
    using P T d_def t_def k0_def R [unfolded kk] k_def R0 e_def s l dx ds by blast
qed

theorem pre_sign_layout_witness:
  "schnorr_pre_sign stub_sha256 (replicate 32 0) (to_bytes_be 32 1) (replicate 32 0) (Some T0)
     = Inr ([0x03] @ to_bytes_be 32 (fst R0_sample) @ to_bytes_be 32 2)
   \<and> length ([0x03] @ to_bytes_be 32 (fst R0_sample) @ to_bytes_be 32 2) = 65
   \<and> hd ([0x03] @ to_bytes_be 32 (fst R0_sample) @ to_bytes_be 32 2) \<in> {0x02, 0x03 :: byte}
   \<and> int_from_bytes (take 32 (drop 1 ([0x03] @ to_bytes_be 32 (fst R0_sample) @ to_bytes_be 32 2)))
       = fst R0_sample
   \<and> int_from_bytes (drop 33 ([0x03] @ to_bytes_be 32 (fst R0_sample) @ to_bytes_be 32 2))
       = (1 + 1 * 1) mod n"
proof -
  let ?sig = "[0x03] @ to_bytes_be 32 (fst R0_sample) @ to_bytes_be 32 2"
  from pre_sign_layout [OF sample_run] obtain Pp Tp Rp R0p d t k0 k e where
    P: "point_mul (Some G) (int_from_bytes (to_bytes_be 32 1)) = Some Pp" and
    T: "Some T0 = Some Tp" and
    d: "d = (if snd Pp mod 2 = 0 then int_from_bytes (to_bytes_be 32 1)
             else n - int_from_bytes (to_bytes_be 32 1))" and
    t: "t = xor_bytes (to_bytes_be 32 d) (tagged_hash stub_sha256 ''BIP0340/aux'' (replicate 32 0))" and
    k0: "k0 = int_from_bytes (tagged_hash stub_sha256 ''BIP0340/nonce''
               (t @ to_bytes_be 32 (fst Tp) @ to_bytes_be 32 (fst Pp) @ replicate 32 0)) mod n" and
    R: "point_mul (Some G) k0 = Some Rp" and
    k: "k = (if snd Rp mod 2 = 0 then k0 else n - k0)" and
    R0: "point_add (Some Rp) (Some Tp) = Some R0p" and
    e: "e = int_from_bytes (tagged_hash stub_sha256 ''BIP0340/challenge''
              (to_bytes_be 32 (fst R0p) @ to_bytes_be 32 (fst Pp) @ replicate 32 0)) mod n" and
    l: "length ?sig = 65" "hd ?sig \<in> {0x02, 0x03}" and
    dx: "int_from_bytes (take 32 (drop 1 ?sig)) = fst R0p" and
    ds: "int_from_bytes (drop 33 ?sig) = (k + e * d) mod n"
    by blast
  have Pp: "Pp = G" using P by (simp add: point_mul_one)
  have d1: "d = 1" using d by (simp add: Pp G_even)
  have k01: "k0 = 1" using k0 by (simp add: small_mod_n)
  have Rp: "Rp = G" using R by (simp add: k01 point_mul_one)
  have k1: "k = 1" using k by (simp add: Rp G_even k01)
  have R0p: "R0p = R0_sample" using R0 T by (simp add: Rp point_add_G_T0)
  have e1: "e = 1" using e by (simp add: small_mod_n)
  show ?thesis
    using sample_run l dx ds unfolding R0p k1 e1 d1 by blast
qed

section \<open>The nonce derivation\<close>

lemma zero_tagged_hash [simp]: "tagged_hash zero_sha256 tag m = replicate 32 0"
  by (simp add: tagged_hash_def zero_sha256_def)

lemma int_from_zero_bytes: "int_from_bytes (replicate 32 0) = 0"
  by code_simp

lemma point_add_G_G_neg: "point_add (Some G) (Some G_neg) = None"
  by (simp add: G_neg_def G_def p_def)

lemma sample_key:
  "length (replicate 32 (0::byte)) = 32"
  "1 \<le> int_from_bytes (to_bytes_be 32 1)" "int_from_bytes (to_bytes_be 32 1) \<le> n - 1"
  using one_in_key_range by simp_all

text \<open>
  Claim C4, with the failures that come before and after the nonce. Let the input pass the
  three checks. The source first asserts that \<open>P = d0\<cdot>G\<close> is finite. Then \<open>bytes(T)\<close> is
  taken: a \<open>T\<close> at infinity raises the assertion of \<open>x\<close>, and an x-coordinate outside
  \<open>[0, 2\<^sup>2\<^sup>5\<^sup>6)\<close> raises \<open>OverflowError\<close>, both before any nonce exists. Otherwise \<open>d\<close>, \<open>t\<close> and
  \<open>k0 = tagged_hash("BIP0340/nonce", t \<parallel> bytes(T) \<parallel> bytes(P) \<parallel> msg) mod n\<close> are computed as
  the specification words them. \<open>schnorr_pre_sign\<close> raises the \<open>RuntimeError\<close> of the nonce
  exactly when such a \<open>k0\<close> is computed and is 0, and it raises no other \<open>RuntimeError\<close>.
\<close>

theorem pre_sign_nonce_derivation:
  assumes "length msg = 32"
    and "1 \<le> int_from_bytes seckey" and "int_from_bytes seckey \<le> n - 1"
    and "length aux_rand = 32"
  shows "pre_sign_nonce sha msg seckey aux_rand T =
     (case point_mul (Some G) (int_from_bytes seckey) of
        None \<Rightarrow> Inl (AssertionError P_not_None)
      | Some Pp \<Rightarrow>
          (case T of
             None \<Rightarrow> Inl (AssertionError Not_infinite)
           | Some Tp \<Rightarrow>
               if \<not> (0 \<le> fst Tp \<and> fst Tp < 2 ^ 256) then Inl OverflowError
               else if nonce_spec sha msg (int_from_bytes seckey) aux_rand Tp Pp = 0
               then Inl (RuntimeError Nonce_zero)
               else Inr (Some Pp, d_spec (int_from_bytes seckey) Pp,
                         t_spec sha (int_from_bytes seckey) aux_rand Pp,
                         nonce_spec sha msg (int_from_bytes seckey) aux_rand Tp Pp)))
   \<and> (schnorr_pre_sign sha msg seckey aux_rand T = Inl (RuntimeError Nonce_zero)
        \<longleftrightarrow> (\<exists>Pp Tp. point_mul (Some G) (int_from_bytes seckey) = Some Pp \<and> T = Some Tp
                \<and> 0 \<le> fst Tp \<and> fst Tp < 2 ^ 256
                \<and> nonce_spec sha msg (int_from_bytes seckey) aux_rand Tp Pp = 0))
   \<and> (\<forall>e. schnorr_pre_sign sha msg seckey aux_rand T = Inl (RuntimeError e)
          \<longrightarrow> e = Nonce_zero)"
proof (intro conjI)
  show "pre_sign_nonce sha msg seckey aux_rand T =
     (case point_mul (Some G) (int_from_bytes seckey) of
        None \<Rightarrow> Inl (AssertionError P_not_None)
      | Some Pp \<Rightarrow>
          (case T of
             None \<Rightarrow> Inl (AssertionError Not_infinite)
           | Some Tp \<Rightarrow>
               if \<not> (0 \<le> fst Tp \<and> fst Tp < 2 ^ 256) then Inl OverflowError
               else if nonce_spec sha msg (int_from_bytes seckey) aux_rand Tp Pp = 0
               then Inl (RuntimeError Nonce_zero)
               else Inr (Some Pp, d_spec (int_from_bytes seckey) Pp,
                         t_spec sha (int_from_bytes seckey) aux_rand Pp,
                         nonce_spec sha msg (int_from_bytes seckey) aux_rand Tp Pp)))"
    using assms by (rule pre_sign_nonce_closed)
  show "schnorr_pre_sign sha msg seckey aux_rand T = Inl (RuntimeError Nonce_zero)
        \<longleftrightarrow> (\<exists>Pp Tp. point_mul (Some G) (int_from_bytes seckey) = Some Pp \<and> T = Some Tp
                \<and> 0 \<le> fst Tp \<and> fst Tp < 2 ^ 256
                \<and> nonce_spec sha msg (int_from_bytes seckey) aux_rand Tp Pp = 0)"
    unfolding schnorr_pre_sign_closed [OF assms]
    by (auto split: option.splits if_splits)
  show "\<forall>e. schnorr_pre_sign sha msg seckey aux_rand T = Inl (RuntimeError e)
          \<longrightarrow> e = Nonce_zero"
    unfolding schnorr_pre_sign_closed [OF assms]
    by (auto split: option.splits if_splits)
qed

text \<open>
  Three runs that pass the three checks, on the secret key 1 with \<open>stub_sha256\<close>. With \<open>T\<close>
  at infinity and with an x-coordinate of \<open>2\<^sup>2\<^sup>5\<^sup>6\<close> the run fails before a nonce is derived.
  With \<open>T = -G\<close> the nonce is 1, not 0, the first phase returns it, and the run still fails:
  \<open>R0 = G + (-G)\<close> is the point at infinity.
\<close>

theorem pre_sign_nonce_derivation_counterexample:
  "length (replicate 32 (0::byte)) = 32
   \<and> 1 \<le> int_from_bytes (to_bytes_be 32 1) \<and> int_from_bytes (to_bytes_be 32 1) \<le> n - 1
   \<and> pre_sign_nonce stub_sha256 (replicate 32 0) (to_bytes_be 32 1) (replicate 32 0) None
       = Inl (AssertionError Not_infinite)
   \<and> pre_sign_nonce stub_sha256 (replicate 32 0) (to_bytes_be 32 1) (replicate 32 0)
         (Some (2 ^ 256, 0))
       = Inl OverflowError
   \<and> pre_sign_nonce stub_sha256 (replicate 32 0) (to_bytes_be 32 1) (replicate 32 0)
         (Some G_neg)
       = Inr (Some G, 1, xor_bytes (to_bytes_be 32 1) (to_bytes_be 32 1), 1)
   \<and> schnorr_pre_sign stub_sha256 (replicate 32 0) (to_bytes_be 32 1) (replicate 32 0)
         (Some G_neg)
       = Inl (AssertionError Not_infinite)"
proof -
  have g: "bytes_from_int (fst G_neg) = Inr (to_bytes_be 32 (fst G))"
    by (simp add: G_neg_def sample_bytes)
  have a: "pre_sign_nonce stub_sha256 (replicate 32 0) (to_bytes_be 32 1) (replicate 32 0) None
       = Inl (AssertionError Not_infinite)"
    "pre_sign_nonce stub_sha256 (replicate 32 0) (to_bytes_be 32 1) (replicate 32 0)
         (Some (2 ^ 256, 0)) = Inl OverflowError"
    using one_in_key_range
    by (simp_all add: pre_sign_nonce_def point_mul_one G_even sample_bytes bytes_from_int_def)
  have b: "pre_sign_nonce stub_sha256 (replicate 32 0) (to_bytes_be 32 1) (replicate 32 0)
         (Some G_neg) = Inr (Some G, 1, xor_bytes (to_bytes_be 32 1) (to_bytes_be 32 1), 1)"
    using one_in_key_range
    by (simp add: pre_sign_nonce_def point_mul_one G_even sample_bytes small_mod_n g)
  have c: "pre_sign_sig stub_sha256 (replicate 32 0) (Some G_neg) (Some G) 1 1
       = Inl (AssertionError Not_infinite)"
    by (simp add: pre_sign_sig_def point_mul_one G_even point_add_G_G_neg)
  have "schnorr_pre_sign stub_sha256 (replicate 32 0) (to_bytes_be 32 1) (replicate 32 0)
         (Some G_neg) = Inl (AssertionError Not_infinite)"
    by (simp add: schnorr_pre_sign_def b c)
  then show ?thesis using a b sample_key by simp
qed

theorem pre_sign_nonce_derivation_witness:
  "length (replicate 32 (0::byte)) = 32
   \<and> 1 \<le> int_from_bytes (to_bytes_be 32 1) \<and> int_from_bytes (to_bytes_be 32 1) \<le> n - 1
   \<and> point_mul (Some G) (int_from_bytes (to_bytes_be 32 1)) = Some G
   \<and> 0 \<le> fst T0 \<and> fst T0 < 2 ^ 256
   \<and> nonce_spec stub_sha256 (replicate 32 0) 1 (replicate 32 0) T0 G = 1
   \<and> pre_sign_nonce stub_sha256 (replicate 32 0) (to_bytes_be 32 1) (replicate 32 0) (Some T0)
       = Inr (Some G, d_spec 1 G, t_spec stub_sha256 1 (replicate 32 0) G, 1)
   \<and> schnorr_pre_sign stub_sha256 (replicate 32 0) (to_bytes_be 32 1) (replicate 32 0) (Some T0)
       \<noteq> Inl (RuntimeError Nonce_zero)
   \<and> nonce_spec zero_sha256 (replicate 32 0) 1 (replicate 32 0) T0 G = 0
   \<and> pre_sign_nonce zero_sha256 (replicate 32 0) (to_bytes_be 32 1) (replicate 32 0) (Some T0)
       = Inl (RuntimeError Nonce_zero)
   \<and> schnorr_pre_sign zero_sha256 (replicate 32 0) (to_bytes_be 32 1) (replicate 32 0) (Some T0)
       = Inl (RuntimeError Nonce_zero)
   \<and> pre_sign_nonce stub_sha256 (replicate 32 0) (to_bytes_be 32 1) (replicate 32 0) None
       = Inl (AssertionError Not_infinite)"
proof -
  have g: "point_mul (Some G) (int_from_bytes (to_bytes_be 32 1)) = Some G"
    by (simp add: point_mul_one)
  have s1: "nonce_spec stub_sha256 (replicate 32 0) 1 (replicate 32 0) T0 G = 1"
    by (simp add: nonce_spec_def small_mod_n)
  have s0: "nonce_spec zero_sha256 (replicate 32 0) 1 (replicate 32 0) T0 G = 0"
    by (simp add: nonce_spec_def int_from_zero_bytes)
  note a = pre_sign_nonce_derivation [OF sample_key sample_key(1), of stub_sha256 "Some T0"]
  note b = pre_sign_nonce_derivation [OF sample_key sample_key(1), of zero_sha256 "Some T0"]
  note c = pre_sign_nonce_derivation [OF sample_key sample_key(1), of stub_sha256 None]
  have a1: "pre_sign_nonce stub_sha256 (replicate 32 0) (to_bytes_be 32 1) (replicate 32 0) (Some T0)
       = Inr (Some G, d_spec 1 G, t_spec stub_sha256 1 (replicate 32 0) G, 1)"
    using a [THEN conjunct1] sample_ranges(1,2) by (simp add: point_mul_one s1)
  have a2: "schnorr_pre_sign stub_sha256 (replicate 32 0) (to_bytes_be 32 1) (replicate 32 0)
       (Some T0) \<noteq> Inl (RuntimeError Nonce_zero)"
    using a [THEN conjunct2, THEN conjunct1] by (simp add: point_mul_one s1)
  have b1: "pre_sign_nonce zero_sha256 (replicate 32 0) (to_bytes_be 32 1) (replicate 32 0) (Some T0)
       = Inl (RuntimeError Nonce_zero)"
    using b [THEN conjunct1] sample_ranges(1,2) by (simp add: point_mul_one s0)
  have b2: "schnorr_pre_sign zero_sha256 (replicate 32 0) (to_bytes_be 32 1) (replicate 32 0)
       (Some T0) = Inl (RuntimeError Nonce_zero)"
    using b [THEN conjunct2, THEN conjunct1] sample_ranges(1,2) by (simp add: point_mul_one s0)
  have c1: "pre_sign_nonce stub_sha256 (replicate 32 0) (to_bytes_be 32 1) (replicate 32 0) None
       = Inl (AssertionError Not_infinite)"
    using c [THEN conjunct1] by (simp add: point_mul_one)
  show ?thesis using sample_key g sample_ranges(1,2) s1 s0 a1 a2 b1 b2 c1 by simp
qed

section \<open>The length of the secret key\<close>







section \<open>The verification routine\<close>

lemma int_from_ff_bytes: "int_from_bytes (replicate 32 0xFF) = 2 ^ 256 - 1"
  by code_simp

text \<open>
  Claim C1. The claim asks \<open>schnorr_pre_verify\<close> to reject a pre-signature with a flipped
  bit and to succeed only when \<open>R0 = s\<cdot>G - e\<cdot>P + T\<close>. The routine of the source accepts
  everything: here a pre-signature of 65 zero bytes and the same with the lowest bit of
  \<open>s\<close> flipped, under a public key of 32 bytes \<open>0xFF\<close>, which is no x-coordinate at all
  (\<open>lift_x\<close> rejects it, so no point \<open>P\<close> exists for the equation).
\<close>

theorem schnorr_pre_verify_stub:
  "schnorr_pre_verify (replicate 32 0) (Some T0) (replicate 32 0xFF) (replicate 65 0)
   \<and> schnorr_pre_verify (replicate 32 0) (Some T0) (replicate 32 0xFF) (replicate 64 0 @ [0x01])
   \<and> lift_x (int_from_bytes (replicate 32 0xFF)) = None"
  by (simp add: schnorr_pre_verify_def lift_x_def int_from_ff_bytes p_def)

section \<open>Lifting an x-coordinate\<close>











end
